theory Spec2Isabelle
  imports Main
begin

section \<open>The lineage panel of vscode-dbt-power-user\<close>

text \<open>
  A shallow embedding of \<^verbatim>\<open>src/webview_provider/lineagePanel.ts\<close> (the class
  \<^verbatim>\<open>LineagePanel\<close> with its \<^verbatim>\<open>eventMap\<close>): the per-project store of graph
  snapshots, the lookup of the node of the active file, the connected-tables query and
  the request handler that answers the webview.
\<close>

subsection \<open>Data\<close>

text \<open>
  A \<^verbatim>\<open>Uri\<close> of the editor API; the source reads its \<^verbatim>\<open>fsPath\<close> and its
  \<^verbatim>\<open>path\<close>.
\<close>

record Uri =
  fsPath :: string
  path :: string

text \<open>
  An element of \<^verbatim>\<open>node.nodes\<close>; the source types it inline as
  \<^verbatim>\<open>{ key; url; label }\<close>. The fields carry a prefix because \<^verbatim>\<open>Table\<close> has
  fields of the same names.
\<close>

record child =
  child_key :: string
  child_url :: string
  child_label :: string

text \<open>The value type \<^verbatim>\<open>{ nodes: any[] }\<close> of a dependency map.\<close>

record DependencyNode =
  nodes :: "child list"

text \<open>
  \<^verbatim>\<open>Map<string, { nodes: any[] }>\<close>. A JavaScript \<^verbatim>\<open>Map\<close> iterates in insertion
  order, and \<^verbatim>\<open>getStartingNode\<close> depends on that order, so the map is an association
  list: \<^verbatim>\<open>get\<close> is \<^const>\<open>map_of\<close>, \<^verbatim>\<open>keys()\<close> is \<^term>\<open>map fst\<close>.
  A \<^verbatim>\<open>Map\<close> holds each key once; no result below needs that of the list.
\<close>

type_synonym DependencyNodes = "(string \<times> DependencyNode) list"

text \<open>
  \<^verbatim>\<open>GraphMetaMap\<close> is declared in \<^verbatim>\<open>../domain\<close>; the panel reads its
  \<^verbatim>\<open>parents\<close> and \<^verbatim>\<open>children\<close> entries, and \<^verbatim>\<open>keyof GraphMetaMap\<close> is passed
  as one of these two names only.
\<close>

record GraphMetaMap =
  parents :: DependencyNodes
  children :: DependencyNodes

datatype GraphMetaKey = Parents | Children

fun graphMetaMap_at :: "GraphMetaMap \<Rightarrow> GraphMetaKey \<Rightarrow> DependencyNodes" where
  "graphMetaMap_at g Parents = parents g"
| "graphMetaMap_at g Children = children g"

record Table =
  table :: string
  url :: string
  count :: nat
  label :: string

text \<open>
  The events of the manifest cache (declared in
  \<^verbatim>\<open>../manifest/event/manifestCacheChangedEvent\<close>), with the fields the panel
  reads. \<^verbatim>\<open>added\<close> and \<^verbatim>\<open>removed\<close> are optional (\<^verbatim>\<open>event.added?.forEach\<close>).
\<close>

record ManifestCacheProjectAddedEvent =
  projectRoot :: Uri
  graphMetaMap :: GraphMetaMap

record ManifestCacheProjectRemovedEvent =
  removed_projectRoot :: Uri

record ManifestCacheChangedEvent =
  added :: "ManifestCacheProjectAddedEvent list option"
  removed :: "ManifestCacheProjectRemovedEvent list option"

text \<open>The node that \<^verbatim>\<open>getStartingNode\<close> returns inside \<^verbatim>\<open>{ node: ... }\<close>.\<close>

record StartingNode =
  node_table :: string
  node_url :: string
  upstreamCount :: nat
  downstreamCount :: nat

text \<open>
  The request that \<^verbatim>\<open>handleRequest\<close> receives and the response it posts. The
  \<^verbatim>\<open>id\<close> is only copied from the one to the other. An undefined \<^verbatim>\<open>body\<close> is
  \<^const>\<open>None\<close>; a body \<^verbatim>\<open>{ tables: undefined }\<close> is
  \<^verbatim>\<open>Some \<lparr>tables = None\<rparr>\<close>.
\<close>

record Params =
  params_table :: string

record Request =
  request_url :: string
  request_id :: int
  params :: Params

record Body =
  tables :: "Table list option"

record Response =
  response_id :: int
  body :: "Body option"
  status :: bool

text \<open>
  What is posted to the webview: \<^verbatim>\<open>{ command: "render", args }\<close> and
  \<^verbatim>\<open>{ command: "response", args }\<close>. The argument of a render is the result of
  \<^verbatim>\<open>getStartingNode\<close>: undefined, or \<^verbatim>\<open>{ node }\<close>.
\<close>

datatype message = Render "StartingNode option" | ResponseMsg Response

text \<open>The webview view, as the list of the messages posted to it, oldest first.\<close>

record WebviewView =
  posted :: "message list"

record TextDocument =
  uri :: Uri
  fileName :: string

record TextEditor =
  document :: TextDocument

text \<open>
  What the panel reads from outside the class: \<^verbatim>\<open>window.activeTextEditor\<close>,
  \<^verbatim>\<open>dbtProjectContainer.getProjectRootpath\<close>, Node's \<^verbatim>\<open>path.basename\<close> and
  \<^verbatim>\<open>String.prototype.localeCompare\<close>. None of them is code of this file, so they
  are parameters.
\<close>

record host =
  activeTextEditor :: "TextEditor option"
  getProjectRootpath :: "Uri \<Rightarrow> Uri option"
  basename :: "string \<Rightarrow> string \<Rightarrow> string"
  localeCompare :: "string \<Rightarrow> string \<Rightarrow> int"

text \<open>
  The fields of \<^verbatim>\<open>LineagePanel\<close>: \<^verbatim>\<open>_panel\<close> (undefined until
  \<^verbatim>\<open>resolveWebviewView\<close>) and \<^verbatim>\<open>eventMap\<close>, a \<^verbatim>\<open>Map\<close> of which only
  \<^verbatim>\<open>get\<close>, \<^verbatim>\<open>set\<close> and \<^verbatim>\<open>delete\<close> are used. \<^verbatim>\<open>eventMap\<close> is initialised
  with \<^verbatim>\<open>new Map()\<close> and never assigned again, so it is never undefined.
\<close>

record LineagePanel =
  panel :: "WebviewView option"
  eventMap :: "string \<rightharpoonup> ManifestCacheProjectAddedEvent"

subsection \<open>Strings and arrays of JavaScript\<close>

text \<open>\<^verbatim>\<open>s.startsWith(p)\<close> and \<^verbatim>\<open>s.endsWith(p)\<close>.\<close>

definition startsWith :: "string \<Rightarrow> string \<Rightarrow> bool" where
  "startsWith s p = (take (length p) s = p)"

definition endsWith :: "string \<Rightarrow> string \<Rightarrow> bool" where
  "endsWith s p = (length p \<le> length s \<and> drop (length s - length p) s = p)"

text \<open>
  \<^verbatim>\<open>Array.prototype.sort(compareFn)\<close>. The sort is stable, and for a consistent
  comparator the order in which the engine compares is not observable, so it is the
  stable insertion sort: an element goes before the first one it does not compare
  greater than, and the elements are inserted from the last to the first.
\<close>

fun insert_by :: "('a \<Rightarrow> 'a \<Rightarrow> int) \<Rightarrow> 'a \<Rightarrow> 'a list \<Rightarrow> 'a list" where
  "insert_by cmp x [] = [x]"
| "insert_by cmp x (y # ys) =
     (if cmp x y \<le> 0 then x # y # ys else y # insert_by cmp x ys)"

definition array_sort :: "('a \<Rightarrow> 'a \<Rightarrow> int) \<Rightarrow> 'a list \<Rightarrow> 'a list" where
  "array_sort cmp xs = foldr (insert_by cmp) xs []"

subsection \<open>The operations of the panel\<close>

text \<open>\<^verbatim>\<open>this._panel?.webview.postMessage(m)\<close>: nothing happens without a panel.\<close>

definition postMessage :: "LineagePanel \<Rightarrow> message \<Rightarrow> LineagePanel" where
  "postMessage st m =
     st\<lparr>panel := map_option (\<lambda>p. p\<lparr>posted := posted p @ [m]\<rparr>) (panel st)\<rparr>"

text \<open>\<^verbatim>\<open>getGraphMetaMap\<close>: each early \<^verbatim>\<open>return\<close> is \<^const>\<open>None\<close>.\<close>

definition getGraphMetaMap :: "host \<Rightarrow> LineagePanel \<Rightarrow> GraphMetaMap option" where
  "getGraphMetaMap h st =
     (case activeTextEditor h of
        None \<Rightarrow> None
      | Some editor \<Rightarrow>
          (let currentFilePath = uri (document editor) in
           case getProjectRootpath h currentFilePath of
             None \<Rightarrow> None
           | Some projectRootpath \<Rightarrow>
               (case eventMap st (fsPath projectRootpath) of
                  None \<Rightarrow> None
                | Some event \<Rightarrow> Some (graphMetaMap event))))"

text \<open>
  The local \<^verbatim>\<open>tables\<close> of \<^verbatim>\<open>getConnectedTables\<close> is a \<^verbatim>\<open>Map\<close> whose values are
  read in insertion order, so it is an association list that grows at its end.
  \<^verbatim>\<open>addToTables\<close> sets a key only when the map does not have it. The value is
  \<^verbatim>\<open>Omit<Table, "table">\<close>: the url, the count and the label.
\<close>

definition addToTables ::
  "(string \<times> Table) list \<Rightarrow> string \<Rightarrow> string \<times> nat \<times> string \<Rightarrow> (string \<times> Table) list" where
  "addToTables tbls k v =
     (if k \<in> fst ` set tbls then tbls
      else (case v of (u, c, l) \<Rightarrow>
        tbls @ [(k, \<lparr>table = k, url = u, count = c, label = l\<rparr>)]))"

text \<open>\<^verbatim>\<open>dependencyNodes.get(k)?.nodes.length || 0\<close>.\<close>

definition nodesLength :: "DependencyNodes \<Rightarrow> string \<Rightarrow> nat" where
  "nodesLength dependencyNodes k =
     (case map_of dependencyNodes k of None \<Rightarrow> 0 | Some n \<Rightarrow> length (nodes n))"

definition getConnectedTables ::
  "host \<Rightarrow> LineagePanel \<Rightarrow> GraphMetaKey \<Rightarrow> string \<Rightarrow> Table list option" where
  "getConnectedTables h st key tbl =
     (case getGraphMetaMap h st of
        None \<Rightarrow> None
      | Some g \<Rightarrow>
          (let dependencyNodes = graphMetaMap_at g key in
           case map_of dependencyNodes tbl of
             None \<Rightarrow> None
           | Some node \<Rightarrow>
               (let tbls =
                  fold (\<lambda>c acc.
                          addToTables acc (child_key c)
                            (child_url c, nodesLength dependencyNodes (child_key c), child_label c))
                       (nodes node) []
                in Some (array_sort (\<lambda>a b. localeCompare h (label a) (label b))
                           (map snd tbls)))))"

definition getUpstreamTables :: "host \<Rightarrow> LineagePanel \<Rightarrow> Params \<Rightarrow> Table list option" where
  "getUpstreamTables h st p = getConnectedTables h st Children (params_table p)"

definition getDownstreamTables :: "host \<Rightarrow> LineagePanel \<Rightarrow> Params \<Rightarrow> Table list option" where
  "getDownstreamTables h st p = getConnectedTables h st Parents (params_table p)"

text \<open>
  \<^verbatim>\<open>getStartingNode\<close>. \<^verbatim>\<open>Array.prototype.find\<close> returns the first element that
  satisfies the predicate; \<^verbatim>\<open>!key\<close> holds for undefined and for the empty string.
  The non-null assertion on \<^verbatim>\<open>window.activeTextEditor\<close> is safe here, since
  \<^verbatim>\<open>getGraphMetaMap\<close> has returned a map; the \<^const>\<open>None\<close> branch is never taken.
\<close>

definition getStartingNode :: "host \<Rightarrow> LineagePanel \<Rightarrow> StartingNode option" where
  "getStartingNode h st =
     (case getGraphMetaMap h st of
        None \<Rightarrow> None
      | Some g \<Rightarrow>
          (case activeTextEditor h of
             None \<Rightarrow> None
           | Some editor \<Rightarrow>
               (let name = basename h (fileName (document editor)) ''.sql'';
                    dependencyNodes = parents g
                in case find (\<lambda>k. endsWith k (''.'' @ name) \<and> startsWith k ''model.'')
                          (map fst dependencyNodes) of
                     None \<Rightarrow> None
                   | Some k \<Rightarrow>
                       if k = [] then None
                       else Some \<lparr>node_table = k,
                                  node_url = path (uri (document editor)),
                                  upstreamCount = nodesLength (children g) k,
                                  downstreamCount = nodesLength dependencyNodes k\<rparr>)))"

definition renderStartingNode :: "host \<Rightarrow> LineagePanel \<Rightarrow> LineagePanel" where
  "renderStartingNode h st =
     (case panel st of
        None \<Rightarrow> st
      | Some p \<Rightarrow> postMessage st (Render (getStartingNode h st)))"

text \<open>
  \<^verbatim>\<open>onManifestCacheChanged\<close>: every added project is set, then every removed one is
  deleted, then the starting node is rendered.
\<close>

definition onManifestCacheChanged ::
  "host \<Rightarrow> LineagePanel \<Rightarrow> ManifestCacheChangedEvent \<Rightarrow> LineagePanel" where
  "onManifestCacheChanged h st event =
     (let m1 = (case added event of
                  None \<Rightarrow> eventMap st
                | Some as \<Rightarrow> fold (\<lambda>a m. m(fsPath (projectRoot a) \<mapsto> a)) as (eventMap st));
          m2 = (case removed event of
                  None \<Rightarrow> m1
                | Some rs \<Rightarrow> fold (\<lambda>r m. m(fsPath (removed_projectRoot r) := None)) rs m1)
      in renderStartingNode h (st\<lparr>eventMap := m2\<rparr>))"

text \<open>
  \<^verbatim>\<open>handleRequest\<close>: the two \<^verbatim>\<open>if\<close>s run one after the other, and the urls
  differ, so at most one of them assigns \<^verbatim>\<open>body\<close>.
\<close>

definition handleRequest :: "host \<Rightarrow> LineagePanel \<Rightarrow> Request \<Rightarrow> LineagePanel" where
  "handleRequest h st args =
     (let body0 = None;
          body1 = (if request_url args = ''upstreamTables''
                   then Some \<lparr>tables = getUpstreamTables h st (params args)\<rparr>
                   else body0);
          body2 = (if request_url args = ''downstreamTables''
                   then Some \<lparr>tables = getDownstreamTables h st (params args)\<rparr>
                   else body1)
      in postMessage st
           (ResponseMsg \<lparr>response_id = request_id args, body = body2, status = True\<rparr>))"

subsection \<open>A project to run the operations on\<close>

text \<open>
  A host whose active file is \<^verbatim>\<open>/p/a.sql\<close> in the project rooted at \<^verbatim>\<open>/p\<close>.
  Its \<^verbatim>\<open>localeCompare\<close> compares code units, its \<^verbatim>\<open>basename\<close> cuts the directory
  and the extension. The snapshot lists \<^verbatim>\<open>model.p.c\<close> twice among the children of
  \<^verbatim>\<open>model.p.a\<close>, with two labels, and has two keys that end in \<^verbatim>\<open>.a\<close> among
  the parents.
\<close>

fun example_compare :: "string \<Rightarrow> string \<Rightarrow> int" where
  "example_compare [] [] = 0"
| "example_compare [] (y # ys) = - 1"
| "example_compare (x # xs) [] = 1"
| "example_compare (x # xs) (y # ys) =
     (if (of_char x :: nat) < of_char y then - 1
      else if (of_char y :: nat) < of_char x then 1
      else example_compare xs ys)"

definition example_basename :: "string \<Rightarrow> string \<Rightarrow> string" where
  "example_basename f ext =
     (let base = rev (takeWhile (\<lambda>c. c \<noteq> CHR ''/'') (rev f))
      in if endsWith base ext \<and> base \<noteq> ext
         then take (length base - length ext) base else base)"

definition example_root :: Uri where
  "example_root = \<lparr>fsPath = ''/p'', path = ''/p''\<rparr>"

definition example_host :: host where
  "example_host =
     \<lparr>activeTextEditor =
        Some \<lparr>document = \<lparr>uri = \<lparr>fsPath = ''/p/a.sql'', path = ''/p/a.sql''\<rparr>,
                           fileName = ''/p/a.sql''\<rparr>\<rparr>,
      getProjectRootpath = (\<lambda>u. if startsWith (fsPath u) ''/p/'' then Some example_root else None),
      basename = example_basename,
      localeCompare = example_compare\<rparr>"

definition example_children :: DependencyNodes where
  "example_children =
     [(''model.p.a'',
         \<lparr>nodes = [\<lparr>child_key = ''model.p.c'', child_url = ''/p/c.sql'', child_label = ''c''\<rparr>,
                   \<lparr>child_key = ''model.p.b'', child_url = ''/p/b.sql'', child_label = ''b''\<rparr>,
                   \<lparr>child_key = ''model.p.c'', child_url = ''/x'', child_label = ''a''\<rparr>]\<rparr>),
      (''model.p.b'',
         \<lparr>nodes = [\<lparr>child_key = ''model.p.c'', child_url = ''/p/c.sql'', child_label = ''c''\<rparr>]\<rparr>)]"

definition example_parents :: DependencyNodes where
  "example_parents =
     [(''model.p.a'', \<lparr>nodes = []\<rparr>),
      (''model.q.a'',
         \<lparr>nodes = [\<lparr>child_key = ''model.p.a'', child_url = ''/p/a.sql'', child_label = ''a''\<rparr>]\<rparr>)]"

definition example_snapshot :: GraphMetaMap where
  "example_snapshot = \<lparr>parents = example_parents, children = example_children\<rparr>"

definition example_panel :: LineagePanel where
  "example_panel =
     \<lparr>panel = Some \<lparr>posted = []\<rparr>,
      eventMap = [''/p'' \<mapsto> \<lparr>projectRoot = example_root, graphMetaMap = example_snapshot\<rparr>]\<rparr>"

section \<open>Lemmas\<close>

subsection \<open>Sorting with a comparator\<close>

lemma set_insert_by: "set (insert_by cmp x xs) = insert x (set xs)"
  by (induction xs) auto

lemma set_array_sort: "set (array_sort cmp xs) = set xs"
  by (induction xs) (simp_all add: array_sort_def set_insert_by)

lemma distinct_map_insert_by:
  "distinct (map f (insert_by cmp x xs)) = (f x \<notin> f ` set xs \<and> distinct (map f xs))"
  by (induction xs) (auto simp: set_insert_by)

lemma distinct_map_array_sort: "distinct (map f (array_sort cmp xs)) = distinct (map f xs)"
  by (induction xs) (simp_all add: array_sort_def distinct_map_insert_by set_array_sort [unfolded array_sort_def])

lemma sorted_insert_by:
  assumes total: "\<And>a b. 0 < cmp a b \<Longrightarrow> cmp b a \<le> 0"
    and trans: "\<And>a b c. cmp a b \<le> 0 \<Longrightarrow> cmp b c \<le> 0 \<Longrightarrow> cmp a c \<le> 0"
    and srt: "sorted_wrt (\<lambda>a b. cmp a b \<le> 0) xs"
  shows "sorted_wrt (\<lambda>a b. cmp a b \<le> 0) (insert_by cmp x xs)"
  using srt
proof (induction xs)
  case Nil
  then show ?case by simp
next
  case (Cons y ys)
  show ?case
  proof (cases "cmp x y \<le> 0")
    case True
    have "\<forall>z\<in>set ys. cmp x z \<le> 0"
      using Cons.prems True trans by auto
    with True Cons.prems show ?thesis by simp
  next
    case False
    then have "cmp y x \<le> 0" using total [of x y] by simp
    with False Cons show ?thesis by (auto simp: set_insert_by)
  qed
qed

lemma sorted_array_sort:
  assumes total: "\<And>a b. 0 < cmp a b \<Longrightarrow> cmp b a \<le> 0"
    and trans: "\<And>a b c. cmp a b \<le> 0 \<Longrightarrow> cmp b c \<le> 0 \<Longrightarrow> cmp a c \<le> 0"
  shows "sorted_wrt (\<lambda>a b. cmp a b \<le> 0) (array_sort cmp xs)"
proof (induction xs)
  case Nil
  show ?case by (simp add: array_sort_def)
next
  case (Cons x xs)
  have "array_sort cmp (x # xs) = insert_by cmp x (array_sort cmp xs)"
    by (simp add: array_sort_def)
  with Cons sorted_insert_by [of cmp, OF total trans] show ?case by simp
qed

subsection \<open>The map of tables\<close>

lemma addToTables_triple:
  "addToTables tbls k (u, c, l) =
     (if k \<in> fst ` set tbls then tbls
      else tbls @ [(k, \<lparr>table = k, url = u, count = c, label = l\<rparr>)])"
  by (simp add: addToTables_def)

lemma fold_addToTables_keys:
  "fst ` set (fold (\<lambda>c acc. addToTables acc (child_key c) (child_url c, cnt (child_key c), child_label c)) cs acc)
     = fst ` set acc \<union> child_key ` set cs"
  by (induction cs arbitrary: acc) (auto simp: addToTables_triple)

lemma fold_addToTables_distinct:
  "distinct (map fst acc) \<Longrightarrow>
   distinct (map fst (fold (\<lambda>c acc. addToTables acc (child_key c) (child_url c, cnt (child_key c), child_label c)) cs acc))"
  by (induction cs arbitrary: acc) (auto simp: addToTables_triple)

lemma fold_addToTables_first:
  "(k, t) \<in> set (fold (\<lambda>c acc. addToTables acc (child_key c) (child_url c, cnt (child_key c), child_label c)) cs acc) \<Longrightarrow>
   (k, t) \<in> set acc \<or>
   (k \<notin> fst ` set acc \<and>
    (\<exists>c. find (\<lambda>c. child_key c = k) cs = Some c \<and>
         t = \<lparr>table = k, url = child_url c, count = cnt k, label = child_label c\<rparr>))"
proof (induction cs arbitrary: acc)
  case Nil
  then show ?case by simp
next
  case (Cons c cs)
  from Cons.prems have
    "(k, t) \<in> set (fold (\<lambda>c acc. addToTables acc (child_key c) (child_url c, cnt (child_key c), child_label c)) cs
                      (addToTables acc (child_key c) (child_url c, cnt (child_key c), child_label c)))"
    by simp
  from Cons.IH [OF this] show ?case
    by (auto simp: addToTables_triple split: if_splits)
qed

subsection \<open>The connected tables of a node\<close>

lemma getConnectedTables_Some:
  assumes "getGraphMetaMap h st = Some g"
    and "map_of (graphMetaMap_at g key) tbl = Some node"
  shows "getConnectedTables h st key tbl =
     Some (array_sort (\<lambda>a b. localeCompare h (label a) (label b))
       (map snd (fold (\<lambda>c acc. addToTables acc (child_key c)
                        (child_url c, nodesLength (graphMetaMap_at g key) (child_key c), child_label c))
                  (nodes node) [])))"
  using assms by (simp add: getConnectedTables_def)

lemma getConnectedTables_entries:
  assumes "getGraphMetaMap h st = Some g"
    and "map_of (graphMetaMap_at g key) tbl = Some node"
  shows "\<exists>ts. getConnectedTables h st key tbl = Some ts
          \<and> distinct (map table ts)
          \<and> table ` set ts = child_key ` set (nodes node)
          \<and> (\<forall>t\<in>set ts. \<exists>c. find (\<lambda>c. child_key c = table t) (nodes node) = Some c
                 \<and> url t = child_url c \<and> label t = child_label c
                 \<and> count t = nodesLength (graphMetaMap_at g key) (child_key c))"
proof -
  define cnt where "cnt = nodesLength (graphMetaMap_at g key)"
  define tbls where
    "tbls = fold (\<lambda>c acc. addToTables acc (child_key c) (child_url c, cnt (child_key c), child_label c))
              (nodes node) []"
  define ts where "ts = array_sort (\<lambda>a b. localeCompare h (label a) (label b)) (map snd tbls)"
  have res: "getConnectedTables h st key tbl = Some ts"
    using assms by (simp add: getConnectedTables_Some ts_def tbls_def cnt_def)
  have entry: "\<exists>c. find (\<lambda>c. child_key c = k) (nodes node) = Some c
                  \<and> t = \<lparr>table = k, url = child_url c, count = cnt k, label = child_label c\<rparr>"
    if "(k, t) \<in> set tbls" for k t
    using fold_addToTables_first [of k t cnt "nodes node" "[]"] that by (simp add: tbls_def)
  have key_table: "table t = k" if "(k, t) \<in> set tbls" for k t
    using entry [OF that] by auto
  have "map table (map snd tbls) = map fst tbls"
    using key_table by (auto simp: map_eq_conv)
  moreover have "distinct (map fst tbls)"
    unfolding tbls_def by (rule fold_addToTables_distinct) simp
  ultimately have dist: "distinct (map table ts)"
    by (simp add: ts_def distinct_map_array_sort del: map_map)
  have "table ` set ts = fst ` set tbls"
    using key_table by (force simp: ts_def set_array_sort)
  then have keys: "table ` set ts = child_key ` set (nodes node)"
    by (simp add: tbls_def fold_addToTables_keys)
  have first: "\<exists>c. find (\<lambda>c. child_key c = table t) (nodes node) = Some c
                 \<and> url t = child_url c \<and> label t = child_label c
                 \<and> count t = nodesLength (graphMetaMap_at g key) (child_key c)"
    if "t \<in> set ts" for t
  proof -
    from that obtain k where kt: "(k, t) \<in> set tbls"
      by (auto simp: ts_def set_array_sort)
    from entry [OF kt] obtain c where
      c: "find (\<lambda>c. child_key c = k) (nodes node) = Some c"
         "t = \<lparr>table = k, url = child_url c, count = cnt k, label = child_label c\<rparr>"
      by blast
    from c(1) have "child_key c = k" by (auto simp: find_Some_iff)
    with c show ?thesis by (auto simp: cnt_def)
  qed
  from res dist keys first show ?thesis by blast
qed

subsection \<open>The store\<close>

lemma postMessage_eventMap: "eventMap (postMessage st m) = eventMap st"
  by (simp add: postMessage_def)

lemma renderStartingNode_eventMap: "eventMap (renderStartingNode h st) = eventMap st"
  by (simp add: renderStartingNode_def postMessage_eventMap split: option.splits)

lemma onManifestCacheChanged_eventMap:
  "eventMap (onManifestCacheChanged h st event) =
     (let m1 = (case added event of
                  None \<Rightarrow> eventMap st
                | Some as \<Rightarrow> fold (\<lambda>a m. m(fsPath (projectRoot a) \<mapsto> a)) as (eventMap st))
      in case removed event of
           None \<Rightarrow> m1
         | Some rs \<Rightarrow> fold (\<lambda>r m. m(fsPath (removed_projectRoot r) := None)) rs m1)"
  by (simp add: onManifestCacheChanged_def renderStartingNode_eventMap Let_def)

subsection \<open>The example project\<close>

lemma example_eventMap:
  "eventMap example_panel =
     [''/p'' \<mapsto> \<lparr>projectRoot = example_root, graphMetaMap = example_snapshot\<rparr>]"
  by (simp add: example_panel_def)

lemma example_getGraphMetaMap:
  "getGraphMetaMap example_host example_panel = Some example_snapshot"
  by (simp add: getGraphMetaMap_def example_host_def example_panel_def startsWith_def
      example_root_def)

lemma example_getGraphMetaMap_upd:
  "getGraphMetaMap example_host
     (example_panel\<lparr>eventMap := [''/p'' \<mapsto> \<lparr>projectRoot = example_root, graphMetaMap = g\<rparr>]\<rparr>)
   = Some g"
  by (simp add: getGraphMetaMap_def example_host_def startsWith_def example_root_def)

lemma example_localeCompare: "localeCompare example_host = example_compare"
  by (simp add: example_host_def)

lemma example_activeTextEditor:
  "activeTextEditor example_host =
     Some \<lparr>document = \<lparr>uri = \<lparr>fsPath = ''/p/a.sql'', path = ''/p/a.sql''\<rparr>,
                        fileName = ''/p/a.sql''\<rparr>\<rparr>"
  by (simp add: example_host_def)

lemma example_basename_a: "basename example_host ''/p/a.sql'' ''.sql'' = ''a''"
  by (simp add: example_host_def example_basename_def endsWith_def)

lemma example_panel_panel: "panel example_panel = Some \<lparr>posted = []\<rparr>"
  by (simp add: example_panel_def)

lemma example_compare_total: "0 < example_compare a b \<Longrightarrow> example_compare b a \<le> 0"
proof (induction a b rule: example_compare.induct)
  case (4 x xs y ys)
  consider "(of_char x :: nat) < of_char y" | "(of_char y :: nat) < of_char x"
    | "(of_char x :: nat) = of_char y"
    by linarith
  then show ?case
  proof cases
    case 1
    with 4 show ?thesis by simp
  next
    case 2
    then show ?thesis by simp
  next
    case 3
    with 4 show ?thesis by simp
  qed
qed simp_all

lemma example_compare_trans:
  "example_compare a b \<le> 0 \<Longrightarrow> example_compare b c \<le> 0 \<Longrightarrow> example_compare a c \<le> 0"
proof (induction a b arbitrary: c rule: example_compare.induct)
  case 1
  then show ?case by simp
next
  case (2 y ys)
  then show ?case by (cases c) simp_all
next
  case (3 x xs)
  then show ?case by simp
next
  case (4 x xs y ys)
  show ?case
  proof (cases c)
    case Nil
    with 4 show ?thesis by simp
  next
    case (Cons z zs)
    have xy: "(of_char x :: nat) \<le> of_char y"
      using "4.prems"(1) by (simp split: if_splits)
    have yz: "(of_char y :: nat) \<le> of_char z"
      using "4.prems"(2) Cons by (simp split: if_splits)
    show ?thesis
    proof (cases "(of_char x :: nat) < of_char z")
      case True
      then show ?thesis using Cons by simp
    next
      case False
      with xy yz have eq: "(of_char x :: nat) = of_char y" "(of_char y :: nat) = of_char z"
        by linarith+
      with "4.prems" Cons have "example_compare xs ys \<le> 0" "example_compare ys zs \<le> 0"
        by simp_all
      with "4.IH" eq have "example_compare xs zs \<le> 0" by simp
      with eq Cons show ?thesis by simp
    qed
  qed
qed

lemma example_upstream:
  "getConnectedTables example_host example_panel Children ''model.p.a'' =
     Some [\<lparr>table = ''model.p.b'', url = ''/p/b.sql'', count = 1, label = ''b''\<rparr>,
           \<lparr>table = ''model.p.c'', url = ''/p/c.sql'', count = 0, label = ''c''\<rparr>]"
  by (simp add: getConnectedTables_def example_getGraphMetaMap example_snapshot_def
      example_children_def addToTables_def nodesLength_def array_sort_def example_localeCompare)

lemma example_node:
  "map_of (graphMetaMap_at example_snapshot Children) ''model.p.a'' =
     Some \<lparr>nodes = [\<lparr>child_key = ''model.p.c'', child_url = ''/p/c.sql'', child_label = ''c''\<rparr>,
                     \<lparr>child_key = ''model.p.b'', child_url = ''/p/b.sql'', child_label = ''b''\<rparr>,
                     \<lparr>child_key = ''model.p.c'', child_url = ''/x'', child_label = ''a''\<rparr>]\<rparr>"
  by (simp add: example_snapshot_def example_children_def)

lemma example_no_entry:
  "map_of (graphMetaMap_at example_snapshot Children) ''model.p.c'' = None"
  by (simp add: example_snapshot_def example_children_def)

section \<open>The claims\<close>

subsection \<open>C1: a node key that the selected view does not have\<close>

text \<open>
  C1, as amended. When a snapshot is resolved and the selected view has no entry for
  the node key, \<^verbatim>\<open>getConnectedTables\<close> returns undefined (\<^const>\<open>None\<close>), for
  either direction: the guard \<^verbatim>\<open>if (!node) { return; }\<close> leaves the function, whose
  return type is \<^verbatim>\<open>Table[] | undefined\<close>. It does not return an empty array.
\<close>

theorem absent_key_undefined:
  assumes "getGraphMetaMap h st = Some g"
    and "map_of (graphMetaMap_at g key) tbl = None"
  shows "getConnectedTables h st key tbl = None"
  using assms by (simp add: getConnectedTables_def)

theorem absent_key_undefined_witness:
  "getGraphMetaMap example_host example_panel = Some example_snapshot
   \<and> map_of (graphMetaMap_at example_snapshot Children) ''model.p.c'' = None
   \<and> getConnectedTables example_host example_panel Children ''model.p.c'' = None"
proof -
  have absent: "map_of (graphMetaMap_at example_snapshot Children) ''model.p.c'' = None"
    by (simp add: example_snapshot_def example_children_def)
  from absent_key_undefined [OF example_getGraphMetaMap absent] absent example_getGraphMetaMap
  show ?thesis by simp
qed

text \<open>
  The claim as stated asks for an empty sequence. In the example project
  \<^verbatim>\<open>model.p.c\<close> has no entry among the children, and the result is not the empty
  array.
\<close>

theorem absent_key_counterexample:
  "getGraphMetaMap example_host example_panel = Some example_snapshot
   \<and> map_of (graphMetaMap_at example_snapshot Children) ''model.p.c'' = None
   \<and> getConnectedTables example_host example_panel Children ''model.p.c'' \<noteq> Some []"
  by (simp add: getConnectedTables_def example_getGraphMetaMap example_snapshot_def
      example_children_def)

subsection \<open>C2: the node of the active file\<close>

text \<open>
  C2, as amended. With a snapshot resolved and an active editor, \<^verbatim>\<open>getStartingNode\<close>
  returns undefined exactly when no key of \<^verbatim>\<open>parents\<close> ends with a dot and the base
  name and starts with \<^verbatim>\<open>model.\<close>. When it returns a node, the node's table is
  the first key of \<^verbatim>\<open>parents\<close>, in the order of the map, that satisfies this
  predicate (so it satisfies it), whether or not later keys satisfy it too; the url is
  the path of the active document, and the two counts are the lengths of the key's
  neighbour lists among the children and among the parents (0 without an entry).
\<close>

theorem startingNode_first_match:
  assumes "getGraphMetaMap h st = Some g"
    and "activeTextEditor h = Some editor"
  shows "(getStartingNode h st = None \<longleftrightarrow>
            (\<forall>k\<in>set (map fst (parents g)).
               \<not> (endsWith k (''.'' @ basename h (fileName (document editor)) ''.sql'')
                  \<and> startsWith k ''model.'')))
       \<and> (\<forall>r. getStartingNode h st = Some r \<longrightarrow>
            find (\<lambda>k. endsWith k (''.'' @ basename h (fileName (document editor)) ''.sql'')
                       \<and> startsWith k ''model.'')
                 (map fst (parents g)) = Some (node_table r)
            \<and> endsWith (node_table r) (''.'' @ basename h (fileName (document editor)) ''.sql'')
            \<and> startsWith (node_table r) ''model.''
            \<and> node_url r = path (uri (document editor))
            \<and> upstreamCount r = nodesLength (children g) (node_table r)
            \<and> downstreamCount r = nodesLength (parents g) (node_table r))"
proof -
  define P where
    "P = (\<lambda>k. endsWith k (''.'' @ basename h (fileName (document editor)) ''.sql'')
              \<and> startsWith k ''model.'')"
  have nonempty: "k \<noteq> []" if "P k" for k
    using that by (auto simp: P_def startsWith_def)
  have raw: "getStartingNode h st =
      (case find P (map fst (parents g)) of
         None \<Rightarrow> None
       | Some k \<Rightarrow>
           if k = [] then None
           else Some \<lparr>node_table = k, node_url = path (uri (document editor)),
                      upstreamCount = nodesLength (children g) k,
                      downstreamCount = nodesLength (parents g) k\<rparr>)"
    unfolding P_def using assms by (simp add: getStartingNode_def Let_def)
  have unfold: "getStartingNode h st =
      (case find P (map fst (parents g)) of
         None \<Rightarrow> None
       | Some k \<Rightarrow> Some \<lparr>node_table = k, node_url = path (uri (document editor)),
                          upstreamCount = nodesLength (children g) k,
                          downstreamCount = nodesLength (parents g) k\<rparr>)"
  proof (cases "find P (map fst (parents g))")
    case None
    then show ?thesis by (simp add: raw)
  next
    case (Some k)
    then have "P k" by (auto simp: find_Some_iff)
    with Some nonempty show ?thesis by (simp add: raw)
  qed
  have none: "getStartingNode h st = None \<longleftrightarrow> (\<forall>k\<in>set (map fst (parents g)). \<not> P k)"
  proof (cases "find P (map fst (parents g))")
    case None
    then have "\<forall>k\<in>set (map fst (parents g)). \<not> P k"
      by (simp only: find_None_iff) blast
    with None show ?thesis by (simp add: unfold)
  next
    case (Some k)
    then have "k \<in> set (map fst (parents g))" and "P k"
      by (auto simp: find_Some_iff)
    then have "\<not> (\<forall>k\<in>set (map fst (parents g)). \<not> P k)" by blast
    with Some show ?thesis by (simp add: unfold)
  qed
  have some: "find P (map fst (parents g)) = Some (node_table r) \<and> P (node_table r)
              \<and> node_url r = path (uri (document editor))
              \<and> upstreamCount r = nodesLength (children g) (node_table r)
              \<and> downstreamCount r = nodesLength (parents g) (node_table r)"
    if "getStartingNode h st = Some r" for r
    using that by (auto simp: unfold find_Some_iff split: option.splits)
  from none some show ?thesis unfolding P_def by blast
qed

theorem startingNode_first_match_witness:
  "(getStartingNode example_host example_panel = None \<longleftrightarrow>
      (\<forall>k\<in>set (map fst (parents example_snapshot)).
         \<not> (endsWith k ''.a'' \<and> startsWith k ''model.'')))
   \<and> find (\<lambda>k. endsWith k ''.a'' \<and> startsWith k ''model.'')
        (map fst (parents example_snapshot)) = Some ''model.p.a''"
proof -
  have node: "getStartingNode example_host example_panel =
      Some \<lparr>node_table = ''model.p.a'', node_url = ''/p/a.sql'',
             upstreamCount = 3, downstreamCount = 0\<rparr>"
    by (simp add: example_getGraphMetaMap getStartingNode_def example_activeTextEditor
        example_basename_a example_snapshot_def example_parents_def example_children_def
        nodesLength_def startsWith_def endsWith_def)
  from startingNode_first_match [OF example_getGraphMetaMap example_activeTextEditor] node
  show ?thesis by (simp add: example_basename_a)
qed

text \<open>
  The claim as stated asks for undefined when more than one key matches. In the
  example project two keys of \<^verbatim>\<open>parents\<close> match the base name \<^verbatim>\<open>a\<close>, and the
  result is the node of the first.
\<close>

theorem startingNode_ambiguous_counterexample:
  "getGraphMetaMap example_host example_panel = Some example_snapshot
   \<and> filter (\<lambda>k. endsWith k (''.'' @ basename example_host ''/p/a.sql'' ''.sql'')
                    \<and> startsWith k ''model.'')
        (map fst (parents example_snapshot)) = [''model.p.a'', ''model.q.a'']
   \<and> getStartingNode example_host example_panel =
        Some \<lparr>node_table = ''model.p.a'', node_url = ''/p/a.sql'',
               upstreamCount = 3, downstreamCount = 0\<rparr>"
  by (simp add: example_getGraphMetaMap getStartingNode_def example_activeTextEditor
      example_basename_a example_snapshot_def example_parents_def example_children_def
      nodesLength_def startsWith_def endsWith_def)

subsection \<open>C3: each direction reads its own view\<close>

text \<open>
  C3. The result of \<^verbatim>\<open>getUpstreamTables\<close> is a function of the \<^verbatim>\<open>children\<close> view
  of the resolved snapshot alone, and the result of \<^verbatim>\<open>getDownstreamTables\<close> a function
  of its \<^verbatim>\<open>parents\<close> view alone: two panel states whose snapshots agree on the
  selected view (or that both resolve no snapshot) give the same result, whatever the
  other view holds.
\<close>

theorem query_reads_selected_view_only:
  "(map_option children (getGraphMetaMap h st) = map_option children (getGraphMetaMap h st')
      \<longrightarrow> getUpstreamTables h st p = getUpstreamTables h st' p)
   \<and> (map_option parents (getGraphMetaMap h st) = map_option parents (getGraphMetaMap h st')
      \<longrightarrow> getDownstreamTables h st p = getDownstreamTables h st' p)"
  by (cases "getGraphMetaMap h st"; cases "getGraphMetaMap h st'")
     (simp_all add: getUpstreamTables_def getDownstreamTables_def getConnectedTables_def)

theorem query_reads_selected_view_only_witness:
  "getUpstreamTables example_host example_panel \<lparr>params_table = ''model.p.a''\<rparr>
     = getUpstreamTables example_host
         (example_panel\<lparr>eventMap := [''/p'' \<mapsto> \<lparr>projectRoot = example_root,
             graphMetaMap = example_snapshot\<lparr>parents := []\<rparr>\<rparr>]\<rparr>)
         \<lparr>params_table = ''model.p.a''\<rparr>
   \<and> getDownstreamTables example_host example_panel \<lparr>params_table = ''model.p.a''\<rparr>
     = getDownstreamTables example_host
         (example_panel\<lparr>eventMap := [''/p'' \<mapsto> \<lparr>projectRoot = example_root,
             graphMetaMap = example_snapshot\<lparr>children := []\<rparr>\<rparr>]\<rparr>)
         \<lparr>params_table = ''model.p.a''\<rparr>"
  using query_reads_selected_view_only
          [of example_host example_panel
              "example_panel\<lparr>eventMap := [''/p'' \<mapsto> \<lparr>projectRoot = example_root,
                 graphMetaMap = example_snapshot\<lparr>parents := []\<rparr>\<rparr>]\<rparr>"
              "\<lparr>params_table = ''model.p.a''\<rparr>"]
        query_reads_selected_view_only
          [of example_host example_panel
              "example_panel\<lparr>eventMap := [''/p'' \<mapsto> \<lparr>projectRoot = example_root,
                 graphMetaMap = example_snapshot\<lparr>children := []\<rparr>\<rparr>]\<rparr>"
              "\<lparr>params_table = ''model.p.a''\<rparr>"]
  by (simp add: example_getGraphMetaMap example_getGraphMetaMap_upd)

subsection \<open>C4: one entry for each key, the first one\<close>

text \<open>
  C4. For a node that the selected view has, the query returns a list whose
  \<^verbatim>\<open>table\<close> values are pairwise distinct and are exactly the keys of the node's
  neighbours; the entry of a key has the url and the label of the first neighbour with
  that key in the neighbour list, and the count computed for it. Nothing of a later
  neighbour with the same key reaches the result.
\<close>

theorem result_distinct_first_wins:
  assumes "getGraphMetaMap h st = Some g"
    and "map_of (graphMetaMap_at g key) tbl = Some node"
  shows "\<exists>ts. getConnectedTables h st key tbl = Some ts
          \<and> distinct (map table ts)
          \<and> table ` set ts = child_key ` set (nodes node)
          \<and> (\<forall>t\<in>set ts. \<exists>c. find (\<lambda>c. child_key c = table t) (nodes node) = Some c
                 \<and> url t = child_url c \<and> label t = child_label c
                 \<and> count t = nodesLength (graphMetaMap_at g key) (child_key c))"
  using assms by (rule getConnectedTables_entries)

theorem result_distinct_first_wins_witness:
  "getConnectedTables example_host example_panel Children ''model.p.a'' =
     Some [\<lparr>table = ''model.p.b'', url = ''/p/b.sql'', count = 1, label = ''b''\<rparr>,
           \<lparr>table = ''model.p.c'', url = ''/p/c.sql'', count = 0, label = ''c''\<rparr>]
   \<and> distinct [''model.p.b'', ''model.p.c'']
   \<and> find (\<lambda>c. child_key c = ''model.p.c'')
        [\<lparr>child_key = ''model.p.c'', child_url = ''/p/c.sql'', child_label = ''c''\<rparr>,
         \<lparr>child_key = ''model.p.b'', child_url = ''/p/b.sql'', child_label = ''b''\<rparr>,
         \<lparr>child_key = ''model.p.c'', child_url = ''/x'', child_label = ''a''\<rparr>]
       = Some \<lparr>child_key = ''model.p.c'', child_url = ''/p/c.sql'', child_label = ''c''\<rparr>"
  using result_distinct_first_wins [OF example_getGraphMetaMap example_node]
  by (simp add: example_upstream)

subsection \<open>C5: the result is sorted by label\<close>

text \<open>
  C5. For a node that the selected view has, the query returns a list, its
  \<^verbatim>\<open>table\<close> values are exactly the keys of the node's neighbours, and the list is
  sorted by \<^verbatim>\<open>label\<close>, ascending, under the host's \<^verbatim>\<open>localeCompare\<close>: no entry
  compares greater than a later one. The comparison is taken to be a consistent
  comparator, as ECMAScript requires of \<^verbatim>\<open>localeCompare\<close>: of two strings one does
  not compare greater than the other, and not comparing greater is transitive.
\<close>

theorem result_sorted_by_label:
  assumes total: "\<And>a b. 0 < localeCompare h a b \<Longrightarrow> localeCompare h b a \<le> 0"
    and trans: "\<And>a b c. localeCompare h a b \<le> 0 \<Longrightarrow> localeCompare h b c \<le> 0
                  \<Longrightarrow> localeCompare h a c \<le> 0"
    and snapshot: "getGraphMetaMap h st = Some g"
    and node: "map_of (graphMetaMap_at g key) tbl = Some node"
  shows "\<exists>ts. getConnectedTables h st key tbl = Some ts
          \<and> table ` set ts = child_key ` set (nodes node)
          \<and> sorted_wrt (\<lambda>a b. localeCompare h (label a) (label b) \<le> 0) ts"
proof -
  from getConnectedTables_entries [OF snapshot node] obtain ts where
    res: "getConnectedTables h st key tbl = Some ts"
    and keys: "table ` set ts = child_key ` set (nodes node)"
    by blast
  from res getConnectedTables_Some [OF snapshot node] obtain xs where
    ts: "ts = array_sort (\<lambda>a b. localeCompare h (label a) (label b)) xs"
    by auto
  have "sorted_wrt (\<lambda>a b. localeCompare h (label a) (label b) \<le> 0) ts"
    unfolding ts by (rule sorted_array_sort) (auto intro: total trans)
  with res keys show ?thesis by blast
qed

theorem result_sorted_by_label_witness:
  "\<exists>ts. getConnectedTables example_host example_panel Children ''model.p.a'' = Some ts
      \<and> map label ts = [''b'', ''c'']
      \<and> table ` set ts = {''model.p.b'', ''model.p.c''}
      \<and> sorted_wrt (\<lambda>a b. localeCompare example_host (label a) (label b) \<le> 0) ts"
proof -
  have total: "0 < localeCompare example_host a b \<Longrightarrow> localeCompare example_host b a \<le> 0"
    for a b
    by (simp add: example_localeCompare example_compare_total)
  have trans: "localeCompare example_host a b \<le> 0 \<Longrightarrow> localeCompare example_host b c \<le> 0
        \<Longrightarrow> localeCompare example_host a c \<le> 0" for a b c
    using example_compare_trans [of a b c] by (simp add: example_localeCompare)
  from result_sorted_by_label [of example_host, OF total trans example_getGraphMetaMap example_node]
  show ?thesis by (auto simp: example_upstream)
qed

subsection \<open>C6: the count of an entry\<close>

text \<open>
  C6. For a node that the selected view has, the query returns a list, its
  \<^verbatim>\<open>table\<close> values are exactly the keys of the node's neighbours, and the
  \<^verbatim>\<open>count\<close> of every entry is the length of the neighbour list that the same view
  has for the entry's key, and 0 when the view has no entry for that key.
\<close>

theorem result_count_is_degree:
  assumes "getGraphMetaMap h st = Some g"
    and "map_of (graphMetaMap_at g key) tbl = Some node"
  shows "\<exists>ts. getConnectedTables h st key tbl = Some ts
          \<and> table ` set ts = child_key ` set (nodes node)
          \<and> (\<forall>t\<in>set ts. count t = (case map_of (graphMetaMap_at g key) (table t) of
                                       None \<Rightarrow> 0
                                     | Some n \<Rightarrow> length (nodes n)))"
proof -
  from getConnectedTables_entries [OF assms] obtain ts where
    res: "getConnectedTables h st key tbl = Some ts"
    and keys: "table ` set ts = child_key ` set (nodes node)"
    and entry: "\<forall>t\<in>set ts. \<exists>c. find (\<lambda>c. child_key c = table t) (nodes node) = Some c
                 \<and> url t = child_url c \<and> label t = child_label c
                 \<and> count t = nodesLength (graphMetaMap_at g key) (child_key c)"
    by blast
  have "count t = (case map_of (graphMetaMap_at g key) (table t) of
                     None \<Rightarrow> 0 | Some n \<Rightarrow> length (nodes n))"
    if "t \<in> set ts" for t
  proof -
    from entry that obtain c where
      c: "find (\<lambda>c. child_key c = table t) (nodes node) = Some c"
      and cnt: "count t = nodesLength (graphMetaMap_at g key) (child_key c)"
      by blast
    from c have "child_key c = table t" by (auto simp: find_Some_iff)
    with cnt show ?thesis by (simp add: nodesLength_def)
  qed
  with res keys show ?thesis by blast
qed

theorem result_count_is_degree_witness:
  "\<exists>ts. getConnectedTables example_host example_panel Children ''model.p.a'' = Some ts
      \<and> map (\<lambda>t. (table t, count t)) ts = [(''model.p.b'', 1), (''model.p.c'', 0)]
      \<and> (\<forall>t\<in>set ts. count t = (case map_of (graphMetaMap_at example_snapshot Children) (table t) of
                                   None \<Rightarrow> 0
                                 | Some n \<Rightarrow> length (nodes n)))"
  using result_count_is_degree [OF example_getGraphMetaMap example_node]
  by (auto simp: example_upstream)


subsection \<open>C7 and C8: the store\<close>

text \<open>
  C7. Removing a project that the store does not hold leaves the store as it was, and
  the project is still absent. The removal is the event whose \<^verbatim>\<open>removed\<close> list is
  the one project root and whose \<^verbatim>\<open>added\<close> list is undefined; the store is
  \<^verbatim>\<open>eventMap\<close>, keyed by the \<^verbatim>\<open>fsPath\<close> of the root.
\<close>

theorem removed_absent_unchanged:
  assumes "eventMap st (fsPath p) = None"
  shows "eventMap (onManifestCacheChanged h st
                     \<lparr>added = None, removed = Some [\<lparr>removed_projectRoot = p\<rparr>]\<rparr>) = eventMap st
       \<and> eventMap (onManifestCacheChanged h st
                     \<lparr>added = None, removed = Some [\<lparr>removed_projectRoot = p\<rparr>]\<rparr>) (fsPath p) = None"
proof -
  have "(eventMap st)(fsPath p := None) = eventMap st"
    using assms by (simp add: fun_eq_iff)
  then show ?thesis
    using assms by (simp add: onManifestCacheChanged_eventMap)
qed

theorem removed_absent_unchanged_witness:
  "eventMap example_panel (fsPath \<lparr>fsPath = ''/q'', path = ''/q''\<rparr>) = None
   \<and> eventMap (onManifestCacheChanged example_host example_panel
        \<lparr>added = None,
           removed = Some [\<lparr>removed_projectRoot = \<lparr>fsPath = ''/q'', path = ''/q''\<rparr>\<rparr>]\<rparr>)
       = eventMap example_panel"
proof -
  have absent: "eventMap example_panel (fsPath \<lparr>fsPath = ''/q'', path = ''/q''\<rparr>) = None"
    by (simp add: example_eventMap)
  from removed_absent_unchanged [OF absent, of example_host] absent
  show ?thesis by simp
qed

text \<open>
  C8. After a project is added and then added again, the store holds for it exactly
  the second event, with the second snapshot, and every other entry is the one the
  store had before: the store is the old one updated at this project's key, whatever
  the first snapshot was. The two events may come under different hosts.
\<close>

theorem added_twice_replaces:
  assumes "fsPath (projectRoot a1) = fsPath (projectRoot a2)"
  shows "eventMap (onManifestCacheChanged h2
                     (onManifestCacheChanged h1 st \<lparr>added = Some [a1], removed = None\<rparr>)
                     \<lparr>added = Some [a2], removed = None\<rparr>)
           = (eventMap st)(fsPath (projectRoot a2) \<mapsto> a2)
       \<and> map_option graphMetaMap
           (eventMap (onManifestCacheChanged h2
                        (onManifestCacheChanged h1 st \<lparr>added = Some [a1], removed = None\<rparr>)
                        \<lparr>added = Some [a2], removed = None\<rparr>) (fsPath (projectRoot a2)))
           = Some (graphMetaMap a2)"
  using assms by (simp add: onManifestCacheChanged_eventMap)

theorem added_twice_replaces_witness:
  "eventMap (onManifestCacheChanged example_host
               (onManifestCacheChanged example_host example_panel
                  \<lparr>added = Some [\<lparr>projectRoot = example_root,
                                   graphMetaMap = \<lparr>parents = [], children = example_children\<rparr>\<rparr>],
                     removed = None\<rparr>)
               \<lparr>added = Some [\<lparr>projectRoot = example_root,
                                graphMetaMap = \<lparr>parents = [], children = []\<rparr>\<rparr>],
                  removed = None\<rparr>) ''/p''
     = Some \<lparr>projectRoot = example_root, graphMetaMap = \<lparr>parents = [], children = []\<rparr>\<rparr>"
  using added_twice_replaces
    [of "\<lparr>projectRoot = example_root,
           graphMetaMap = \<lparr>parents = [], children = example_children\<rparr>\<rparr>"
        "\<lparr>projectRoot = example_root, graphMetaMap = \<lparr>parents = [], children = []\<rparr>\<rparr>"
        example_host example_host example_panel]
  by (simp add: example_root_def)

subsection \<open>C9 and C10: the response to a request\<close>

text \<open>
  C9. For a request whose url is neither \<^verbatim>\<open>upstreamTables\<close> nor
  \<^verbatim>\<open>downstreamTables\<close>, \<^verbatim>\<open>handleRequest\<close> posts to the panel one response that
  carries the id of the request and an undefined body, and changes nothing else. The
  handler is registered on the webview of the panel, so a request arrives only when the
  panel is set.
\<close>

theorem unknown_url_undefined_body:
  assumes "request_url args \<noteq> ''upstreamTables''"
    and "request_url args \<noteq> ''downstreamTables''"
    and "panel st = Some p"
  shows "handleRequest h st args =
           st\<lparr>panel := Some (p\<lparr>posted := posted p @
                  [ResponseMsg \<lparr>response_id = request_id args, body = None, status = True\<rparr>]\<rparr>)\<rparr>"
  using assms by (simp add: handleRequest_def postMessage_def)

theorem unknown_url_undefined_body_witness:
  "handleRequest example_host example_panel
     \<lparr>request_url = ''openTables'', request_id = 7, params = \<lparr>params_table = ''model.p.a''\<rparr>\<rparr>
   = example_panel\<lparr>panel := Some \<lparr>posted =
       [ResponseMsg \<lparr>response_id = 7, body = None, status = True\<rparr>]\<rparr>\<rparr>"
  using unknown_url_undefined_body
          [of "\<lparr>request_url = ''openTables'', request_id = 7,
                 params = \<lparr>params_table = ''model.p.a''\<rparr>\<rparr>"
              example_panel "\<lparr>posted = []\<rparr>" example_host]
  by (simp add: example_panel_panel)

text \<open>
  C10. Whatever the request, the one response that \<^verbatim>\<open>handleRequest\<close> posts has
  \<^verbatim>\<open>status\<close> true: for an unknown url, where the body is undefined, and for the two
  known urls, where the body holds the result of the query, which is undefined when no
  snapshot is resolved or when the view has no entry for the node key.
\<close>

theorem response_status_true:
  assumes "panel st = Some p"
  shows "handleRequest h st args =
           st\<lparr>panel := Some (p\<lparr>posted := posted p @
                  [ResponseMsg \<lparr>response_id = request_id args,
                     body = (if request_url args = ''downstreamTables''
                             then Some \<lparr>tables = getDownstreamTables h st (params args)\<rparr>
                             else if request_url args = ''upstreamTables''
                             then Some \<lparr>tables = getUpstreamTables h st (params args)\<rparr>
                             else None),
                     status = True\<rparr>]\<rparr>)\<rparr>"
  using assms by (simp add: handleRequest_def postMessage_def)

theorem response_status_true_witness:
  "handleRequest example_host example_panel
     \<lparr>request_url = ''upstreamTables'', request_id = 8, params = \<lparr>params_table = ''model.p.c''\<rparr>\<rparr>
   = example_panel\<lparr>panel := Some \<lparr>posted =
       [ResponseMsg \<lparr>response_id = 8, body = Some \<lparr>tables = None\<rparr>, status = True\<rparr>]\<rparr>\<rparr>
   \<and> handleRequest example_host (example_panel\<lparr>eventMap := Map.empty\<rparr>)
     \<lparr>request_url = ''downstreamTables'', request_id = 9, params = \<lparr>params_table = ''model.p.a''\<rparr>\<rparr>
   = example_panel\<lparr>eventMap := Map.empty, panel := Some \<lparr>posted =
       [ResponseMsg \<lparr>response_id = 9, body = Some \<lparr>tables = None\<rparr>, status = True\<rparr>]\<rparr>\<rparr>"
proof -
  have absent: "getUpstreamTables example_host example_panel \<lparr>params_table = ''model.p.c''\<rparr> = None"
    using example_no_entry
    by (simp add: getUpstreamTables_def getConnectedTables_def example_getGraphMetaMap)
  have unresolved: "getDownstreamTables example_host (example_panel\<lparr>eventMap := Map.empty\<rparr>)
      \<lparr>params_table = ''model.p.a''\<rparr> = None"
    by (simp add: getDownstreamTables_def getConnectedTables_def getGraphMetaMap_def
        example_activeTextEditor example_host_def startsWith_def)
  from response_status_true
         [of example_panel "\<lparr>posted = []\<rparr>" example_host
             "\<lparr>request_url = ''upstreamTables'', request_id = 8,
                params = \<lparr>params_table = ''model.p.c''\<rparr>\<rparr>"]
       response_status_true
         [of "example_panel\<lparr>eventMap := Map.empty\<rparr>" "\<lparr>posted = []\<rparr>" example_host
             "\<lparr>request_url = ''downstreamTables'', request_id = 9,
                params = \<lparr>params_table = ''model.p.a''\<rparr>\<rparr>"]
       absent unresolved
  show ?thesis by (simp add: example_panel_panel)
qed

end
